theory Spec2Isabelle
  imports Main
begin

section \<open>Strings and clock readings\<close>

text \<open>
  A JavaScript string is a sequence of UTF-16 code units. The literals of
  \<^verbatim>\<open>DrishtiAI.tsx\<close> are ASCII but for one emoji, so a literal is written as an Isabelle
  string and converted by \<open>str\<close>.
\<close>

type_synonym jsstring = "nat list"

definition str :: "string \<Rightarrow> jsstring" where
  "str cs = map of_char cs"

text \<open>
  \<^verbatim>\<open>String.prototype.trim\<close> removes WhiteSpace and LineTerminator code units
  at both ends: TAB, LF, VT, FF, CR, SP, NBSP, U+1680, U+2000 to U+200A, U+2028, U+2029,
  U+202F, U+205F, U+3000 and U+FEFF.
\<close>

definition isWhiteSpace :: "nat \<Rightarrow> bool" where
  "isWhiteSpace c =
     (c = 9 \<or> c = 10 \<or> c = 11 \<or> c = 12 \<or> c = 13 \<or> c = 32 \<or> c = 160 \<or> c = 5760 \<or>
      (8192 \<le> c \<and> c \<le> 8202) \<or> c = 8232 \<or> c = 8233 \<or> c = 8239 \<or> c = 8287 \<or>
      c = 12288 \<or> c = 65279)"

definition trim :: "jsstring \<Rightarrow> jsstring" where
  "trim s = rev (dropWhile isWhiteSpace (rev (dropWhile isWhiteSpace s)))"

text \<open>
  \<^verbatim>\<open>Date.now().toString()\<close>: the decimal digits of a non-negative integer number of
  milliseconds.
\<close>

fun toString :: "nat \<Rightarrow> jsstring" where
  "toString n = (if n < 10 then [48 + n] else toString (n div 10) @ [48 + n mod 10])"

declare toString.simps [simp del]

text \<open>
  One call of \<^verbatim>\<open>simulateAgentFlow\<close> reads the clock four times before its first
  \<^verbatim>\<open>await\<close>: \<^verbatim>\<open>Date.now()\<close> for the user message id, \<^verbatim>\<open>new Date()\<close> for its timestamp,
  \<^verbatim>\<open>Date.now()\<close> for the agent message id and \<^verbatim>\<open>new Date()\<close> for its timestamp.
\<close>

record clock =
  now_user :: nat
  date_user :: nat
  now_agent :: nat
  date_agent :: nat

section \<open>Types of \<^verbatim>\<open>DrishtiAI.tsx\<close>\<close>

text \<open>
  An optional property (\<^verbatim>\<open>plan?: string\<close>) is an \<open>option\<close>, \<open>None\<close> when the object has no
  such property; a property of type \<^verbatim>\<open>T | null\<close> is a \<open>nullable\<close>.
\<close>

datatype 'a nullable = null | val 'a

record UserProfile =
  allergies :: "jsstring list option"
  conditions :: "jsstring list option"
  goals :: "jsstring list option"

record ProductData =
  product_name :: "jsstring nullable option"
  company_name :: "jsstring nullable option"
  IngredientList :: "jsstring list"
  NutritionFacts :: "(jsstring \<times> jsstring) list"
  MarketingClaims :: "jsstring list"

datatype verdict = SAFE | CAUTION | AVOID

text \<open>
  A response, as the code reads it. Each field is the value that reading the property
  gives, \<open>None\<close> for \<^verbatim>\<open>undefined\<close>, whether the object has no such property or holds
  \<^verbatim>\<open>undefined\<close> in it: the component only reads the properties of a response
  (\<^verbatim>\<open>msg.agentResponse.plan && ...\<close>) and spreads it as the first operand of
  \<^verbatim>\<open>{ ...m.agentResponse!, ...updates }\<close>, and both see the values alone. The interface
  requires \<^verbatim>\<open>user_query\<close>; it is an \<open>option\<close> here because \<^verbatim>\<open>updateAgentMsg\<close> builds a
  response from the update alone when the message it rewrites has no \<^verbatim>\<open>agentResponse\<close>
  (the \<^verbatim>\<open>!\<close> of the source is erased by the compiler, and spreading \<^verbatim>\<open>undefined\<close> copies
  nothing).
\<close>

record AgentResponse =
  user_query :: "jsstring option"
  user_profile :: "UserProfile option"
  image_data :: "jsstring nullable option"
  product_json :: "ProductData nullable option"
  plan :: "jsstring option"
  search_needed :: "bool option"
  search_queries :: "jsstring list option"
  search_results :: "jsstring option"
  final_verdict :: "verdict option"
  reasoning :: "jsstring option"
  next_suggestion :: "jsstring list option"
  conversation_summary :: "jsstring option"

datatype sender = user | agent

record Message =
  msg_id :: jsstring
  type :: sender
  content :: jsstring
  agentResponse :: "AgentResponse option"
  timestamp :: nat
  isStreaming :: "bool option"

text \<open>
  The four \<^verbatim>\<open>useState\<close> cells of the component. The component function runs at every
  render, and the handlers it creates close over the values the cells had at that
  render. A handler that reads a cell therefore depends on two states: \<open>rendered\<close>, the
  cells as of the render that created the handler, and \<open>s\<close>, the cells when it runs, on
  which the setters act.
\<close>

record state =
  messages :: "Message list"
  inputValue :: jsstring
  isProcessing :: bool
  currentProcessLog :: jsstring

section \<open>Object spread\<close>

text \<open>A response in which every property reads \<^verbatim>\<open>undefined\<close>, as in the object \<^verbatim>\<open>{}\<close>.\<close>

definition no_properties :: AgentResponse where
  "no_properties =
     \<lparr>user_query = None, user_profile = None, image_data = None, product_json = None,
      plan = None, search_needed = None, search_queries = None, search_results = None,
      final_verdict = None, reasoning = None, next_suggestion = None,
      conversation_summary = None\<rparr>"

text \<open>
  An update, of type \<^verbatim>\<open>Partial<AgentResponse>\<close>: the own properties of the object in the
  order of their creation, each with its value. A property can be present with the value
  \<^verbatim>\<open>undefined\<close>, which is \<open>None\<close>; \<^verbatim>\<open>{ plan: undefined }\<close> is \<open>[Plan None]\<close> and \<^verbatim>\<open>{}\<close> is \<open>[]\<close>.
\<close>

datatype property =
    User_query "jsstring option"
  | User_profile "UserProfile option"
  | Image_data "jsstring nullable option"
  | Product_json "ProductData nullable option"
  | Plan "jsstring option"
  | Search_needed "bool option"
  | Search_queries "jsstring list option"
  | Search_results "jsstring option"
  | Final_verdict "verdict option"
  | Reasoning "jsstring option"
  | Next_suggestion "jsstring list option"
  | Conversation_summary "jsstring option"

text \<open>Copying one own property into an object: the value it had there is replaced.\<close>

fun assign :: "property \<Rightarrow> AgentResponse \<Rightarrow> AgentResponse" where
  "assign (User_query v) r = r\<lparr>user_query := v\<rparr>"
| "assign (User_profile v) r = r\<lparr>user_profile := v\<rparr>"
| "assign (Image_data v) r = r\<lparr>image_data := v\<rparr>"
| "assign (Product_json v) r = r\<lparr>product_json := v\<rparr>"
| "assign (Plan v) r = r\<lparr>plan := v\<rparr>"
| "assign (Search_needed v) r = r\<lparr>search_needed := v\<rparr>"
| "assign (Search_queries v) r = r\<lparr>search_queries := v\<rparr>"
| "assign (Search_results v) r = r\<lparr>search_results := v\<rparr>"
| "assign (Final_verdict v) r = r\<lparr>final_verdict := v\<rparr>"
| "assign (Reasoning v) r = r\<lparr>reasoning := v\<rparr>"
| "assign (Next_suggestion v) r = r\<lparr>next_suggestion := v\<rparr>"
| "assign (Conversation_summary v) r = r\<lparr>conversation_summary := v\<rparr>"

text \<open>
  \<^verbatim>\<open>{ ...a, ...updates }\<close>: the values of \<open>a\<close>, then every own property of the update copied
  over them in turn.
\<close>

definition spread :: "AgentResponse \<Rightarrow> property list \<Rightarrow> AgentResponse" where
  "spread a updates = fold assign updates a"

text \<open>
  \<^verbatim>\<open>{ ...m.agentResponse!, ...updates }\<close>: a message without \<^verbatim>\<open>agentResponse\<close> contributes
  nothing.
\<close>

definition spread_onto :: "AgentResponse option \<Rightarrow> property list \<Rightarrow> AgentResponse" where
  "spread_onto r updates =
     spread (case r of None \<Rightarrow> no_properties | Some a \<Rightarrow> a) updates"

section \<open>The message log\<close>

text \<open>\<^verbatim>\<open>setMessages(prev => [...prev, m])\<close>.\<close>

definition append_message :: "Message \<Rightarrow> state \<Rightarrow> state" where
  "append_message m s = s\<lparr>messages := messages s @ [m]\<rparr>"

text \<open>
  \<^verbatim>\<open>updateAgentMsg\<close>, a closure over \<^verbatim>\<open>agentMsgId\<close>: every message whose id is
  \<^verbatim>\<open>agentMsgId\<close> gets the update spread over its response.
\<close>

definition merge_into :: "jsstring \<Rightarrow> property list \<Rightarrow> Message \<Rightarrow> Message" where
  "merge_into agentMsgId updates m =
     (if msg_id m = agentMsgId
      then m\<lparr>agentResponse := Some (spread_onto (agentResponse m) updates)\<rparr>
      else m)"

definition updateAgentMsg :: "jsstring \<Rightarrow> property list \<Rightarrow> state \<Rightarrow> state" where
  "updateAgentMsg agentMsgId updates s =
     s\<lparr>messages := map (merge_into agentMsgId updates) (messages s)\<rparr>"

text \<open>
  \<^verbatim>\<open>setMessages(prev => prev.map(m => m.id === agentMsgId ? { ...m, isStreaming: false } : m))\<close>.
\<close>

definition stop_streaming :: "jsstring \<Rightarrow> Message \<Rightarrow> Message" where
  "stop_streaming agentMsgId m =
     (if msg_id m = agentMsgId then m\<lparr>isStreaming := Some False\<rparr> else m)"

definition finishAgentMsg :: "jsstring \<Rightarrow> state \<Rightarrow> state" where
  "finishAgentMsg agentMsgId s =
     s\<lparr>messages := map (stop_streaming agentMsgId) (messages s)\<rparr>"

section \<open>The scripted pipeline of \<^verbatim>\<open>simulateAgentFlow\<close>\<close>

subsection \<open>The hardcoded stage updates\<close>

text \<open>The literals of the four calls of \<^verbatim>\<open>updateAgentMsg\<close>.\<close>

definition demo_product :: ProductData where
  "demo_product =
     \<lparr>product_name = Some (val (str ''Crunchy Nut & Honey Bar'')),
      company_name = Some (val (str ''Nature's Fuel'')),
      IngredientList =
        [str ''Whole Grain Oats'', str ''Roasted Peanuts'', str ''Almond Butter'',
         str ''High Fructose Corn Syrup'', str ''Soy Lecithin'', str ''Salt''],
      NutritionFacts =
        [(str ''Calories'', str ''240''), (str ''Total Fat'', str ''12g''),
         (str ''Added Sugars'', str ''14g'')],
      MarketingClaims = [str ''Natural Energy'', str ''Heart Healthy'']\<rparr>"

text \<open>The plan starts with the warning sign U+26A0 and the variation selector U+FE0F.\<close>

definition demo_plan :: jsstring where
  "demo_plan = [9888, 65039] @ str
     '' DETECTED ALLERGEN: 'Peanuts'. User profile indicates severe Peanut Allergy. Checking cross-contamination risks with 'Almond Butter'.''"

definition demo_queries :: "jsstring list" where
  "demo_queries =
     [str ''peanut allergy severity thresholds'',
      str ''Nature's Fuel manufacturing cross-contamination'']"

definition demo_reasoning :: jsstring where
  "demo_reasoning = str
     ''CRITICAL ALERT: This product contains Peanuts. Your profile lists a severe Peanut Allergy. Consuming this poses a high risk of anaphylaxis. Additionally, the 'High Fructose Corn Syrup' conflicts with your goal to reduce glycemic spikes.''"

definition demo_suggestions :: "jsstring list" where
  "demo_suggestions =
     [str ''Find peanut-free alternative'', str ''Report incorrect labeling'',
      str ''View emergency protocol'']"

definition extract_update :: "property list" where
  "extract_update = [Product_json (Some (val demo_product))]"

definition reason_update :: "property list" where
  "reason_update = [Plan (Some demo_plan)]"

definition search_update :: "property list" where
  "search_update = [Search_needed (Some True), Search_queries (Some demo_queries)]"

definition verdict_update :: "property list" where
  "verdict_update =
     [Final_verdict (Some AVOID), Reasoning (Some demo_reasoning),
      Next_suggestion (Some demo_suggestions)]"

subsection \<open>The body, cut at its \<^verbatim>\<open>await\<close>s\<close>

text \<open>
  The body of the async function runs without interruption from one \<^verbatim>\<open>await\<close> to the
  next; other event handlers of the component can run while it waits. Each piece is a
  state transformer. \<open>begin_flow\<close> is the piece that runs inside the caller, up to the
  first \<^verbatim>\<open>await\<close>.
\<close>

definition userMsgId :: "clock \<Rightarrow> jsstring" where
  "userMsgId clk = toString (now_user clk)"

definition agentMsgId :: "clock \<Rightarrow> jsstring" where
  "agentMsgId clk = toString (now_agent clk + 1)"

definition userMsg :: "jsstring \<Rightarrow> clock \<Rightarrow> Message" where
  "userMsg query clk =
     \<lparr>msg_id = userMsgId clk, type = user,
      content = (if query = [] then str ''Scanning uploaded label...'' else query),
      agentResponse = None, timestamp = date_user clk, isStreaming = None\<rparr>"

definition initialResponse :: "jsstring \<Rightarrow> jsstring nullable \<Rightarrow> AgentResponse" where
  "initialResponse query imageData =
     no_properties\<lparr>user_query := Some query, image_data := Some imageData\<rparr>"

definition agentMsg :: "jsstring \<Rightarrow> jsstring nullable \<Rightarrow> clock \<Rightarrow> Message" where
  "agentMsg query imageData clk =
     \<lparr>msg_id = agentMsgId clk, type = agent, content = [],
      agentResponse = Some (initialResponse query imageData),
      timestamp = date_agent clk, isStreaming = Some True\<rparr>"

definition begin_flow :: "jsstring \<Rightarrow> jsstring nullable \<Rightarrow> clock \<Rightarrow> state \<Rightarrow> state" where
  "begin_flow query imageData clk s =
     (let s1 = s\<lparr>isProcessing := True\<rparr>;
          s2 = append_message (userMsg query clk) s1;
          s3 = append_message (agentMsg query imageData clk) s2
      in s3\<lparr>currentProcessLog := str ''SCANNING IMAGE PIXELS...''\<rparr>)"

text \<open>After the wait of 1000 ms: scanning made no update; the extraction is announced.\<close>

definition after_scan :: "jsstring \<Rightarrow> state \<Rightarrow> state" where
  "after_scan a s = s\<lparr>currentProcessLog := str ''EXTRACTING ENTITIES VIA GEMINI 2.0...''\<rparr>"

text \<open>After the wait of 800 ms.\<close>

definition after_extract :: "jsstring \<Rightarrow> state \<Rightarrow> state" where
  "after_extract a s =
     (updateAgentMsg a extract_update s)
       \<lparr>currentProcessLog := str ''CROSS-REFERENCING HEALTH PROFILE...''\<rparr>"

text \<open>After the wait of 1000 ms.\<close>

definition after_reason :: "jsstring \<Rightarrow> state \<Rightarrow> state" where
  "after_reason a s =
     (updateAgentMsg a reason_update s)
       \<lparr>currentProcessLog := str ''VERIFYING ANAPHYLAXIS PROTOCOLS...''\<rparr>"

text \<open>After the wait of 1200 ms.\<close>

definition after_search :: "jsstring \<Rightarrow> state \<Rightarrow> state" where
  "after_search a s =
     (updateAgentMsg a search_update s)
       \<lparr>currentProcessLog := str ''GENERATING SAFETY VERDICT...''\<rparr>"

text \<open>After the wait of 800 ms: the verdict, then the three resets.\<close>

definition after_verdict :: "jsstring \<Rightarrow> state \<Rightarrow> state" where
  "after_verdict a s =
     (finishAgentMsg a (updateAgentMsg a verdict_update s))
       \<lparr>isProcessing := False, currentProcessLog := []\<rparr>"

text \<open>The whole body, for a flow that no other event interrupts.\<close>

definition simulateAgentFlow :: "jsstring \<Rightarrow> jsstring nullable \<Rightarrow> clock \<Rightarrow> state \<Rightarrow> state" where
  "simulateAgentFlow query imageData clk s =
     (let a = agentMsgId clk;
          s0 = begin_flow query imageData clk s;
          s1 = after_scan a s0;
          s2 = after_extract a s1;
          s3 = after_reason a s2;
          s4 = after_search a s3
      in after_verdict a s4)"

text \<open>
  The pieces that follow the \<open>n\<close>-th \<^verbatim>\<open>await\<close>, \<open>n\<close> from 1 to 5, and the milliseconds of
  that \<^verbatim>\<open>await\<close>.
\<close>

definition resume :: "nat \<Rightarrow> jsstring \<Rightarrow> state \<Rightarrow> state" where
  "resume n a s =
     (if n = 1 then after_scan a s
      else if n = 2 then after_extract a s
      else if n = 3 then after_reason a s
      else if n = 4 then after_search a s
      else if n = 5 then after_verdict a s
      else s)"

definition delays :: "nat list" where
  "delays = [1000, 800, 1000, 1200, 800]"

text \<open>
  \<open>flow_until n\<close>: the state when the flow, running alone, has passed \<open>n\<close> of its five
  \<^verbatim>\<open>await\<close>s. \<open>flow_until 0\<close> is the state during the first wait, \<open>flow_until 5\<close> the state
  when the function has returned, which is \<open>simulateAgentFlow\<close>.
\<close>

fun resume_upto :: "nat \<Rightarrow> jsstring \<Rightarrow> state \<Rightarrow> state" where
  "resume_upto 0 a s = s"
| "resume_upto (Suc n) a s = resume (Suc n) a (resume_upto n a s)"

definition flow_until :: "nat \<Rightarrow> jsstring \<Rightarrow> jsstring nullable \<Rightarrow> clock \<Rightarrow> state \<Rightarrow> state" where
  "flow_until n query imageData clk s =
     resume_upto n (agentMsgId clk) (begin_flow query imageData clk s)"


text \<open>
  What an observer sees of a flow running alone: the state during each of the five waits
  with the length of the wait, then the final state.
\<close>

definition flow_trace ::
  "jsstring \<Rightarrow> jsstring nullable \<Rightarrow> clock \<Rightarrow> state \<Rightarrow> (state \<times> nat) list \<times> state" where
  "flow_trace query imageData clk s =
     (map (\<lambda>n. (flow_until n query imageData clk s, delays ! n)) [0..<5],
      simulateAgentFlow query imageData clk s)"

subsection \<open>The event handlers that start a flow\<close>

text \<open>
  \<^verbatim>\<open>handleSubmit\<close>: the state when the handler returns. Its test reads \<^verbatim>\<open>inputValue\<close> and
  \<^verbatim>\<open>isProcessing\<close> as rendered, and the rendered text is the query. The flow it starts
  has run up to its first \<^verbatim>\<open>await\<close>; \<^verbatim>\<open>e.preventDefault()\<close> touches no state of the
  component.
\<close>

definition handleSubmit :: "state \<Rightarrow> clock \<Rightarrow> state \<Rightarrow> state" where
  "handleSubmit rendered clk s =
     (if trim (inputValue rendered) \<noteq> [] \<and> \<not> isProcessing rendered
      then (begin_flow (inputValue rendered) null clk s)\<lparr>inputValue := []\<rparr>
      else s)"

text \<open>
  \<^verbatim>\<open>handleFileSelect\<close>: \<open>file\<close> is \<open>None\<close> when no file was chosen, and otherwise the
  \<^verbatim>\<open>result\<close> of the \<^verbatim>\<open>FileReader\<close> when \<^verbatim>\<open>onloadend\<close> fires: the data URL, or \<^verbatim>\<open>null\<close> when the
  read failed. The state is the one when \<^verbatim>\<open>onloadend\<close> returns. There is no test of
  \<^verbatim>\<open>isProcessing\<close> on this path.
\<close>

definition handleFileSelect :: "jsstring nullable option \<Rightarrow> clock \<Rightarrow> state \<Rightarrow> state" where
  "handleFileSelect file clk s =
     (case file of
        None \<Rightarrow> s
      | Some base64String \<Rightarrow> begin_flow (str ''Analyze this label'') base64String clk s)"

text \<open>
  The \<^verbatim>\<open>onClick\<close> of a follow-up suggestion:
  \<^verbatim>\<open>!isProcessing && simulateAgentFlow(s, null)\<close>, with \<^verbatim>\<open>isProcessing\<close> as rendered.
\<close>

definition suggestionClick :: "state \<Rightarrow> jsstring \<Rightarrow> clock \<Rightarrow> state \<Rightarrow> state" where
  "suggestionClick rendered suggestion clk s =
     (if \<not> isProcessing rendered then begin_flow suggestion null clk s else s)"

text \<open>
  The \<^verbatim>\<open>onClick\<close> of the example question:
  \<^verbatim>\<open>simulateAgentFlow("Is Ashwagandha safe for hypothyroidism?", null)\<close>, with no test.
\<close>

definition exampleClick :: "clock \<Rightarrow> state \<Rightarrow> state" where
  "exampleClick clk s = begin_flow (str ''Is Ashwagandha safe for hypothyroidism?'') null clk s"

text \<open>The \<^verbatim>\<open>onChange\<close> of the text input.\<close>

definition handleChange :: "jsstring \<Rightarrow> state \<Rightarrow> state" where
  "handleChange v s = s\<lparr>inputValue := v\<rparr>"

subsection \<open>Schedules\<close>

text \<open>
  Everything that changes the state of the component: the handlers above, and a pending
  flow passing one of its \<^verbatim>\<open>await\<close>s. \<open>Resume n a\<close> is the flow whose agent message id is
  \<open>a\<close> passing its \<open>n\<close>-th \<^verbatim>\<open>await\<close>. A handler that reads the cells comes with the render
  it was created in, which may be any. A schedule is any list of events; the schedules
  the browser can produce are among them.
\<close>

datatype event =
    Submit state clock
  | FileSelect "jsstring nullable option" clock
  | SuggestionClick state jsstring clock
  | ExampleClick clock
  | Change jsstring
  | Resume nat jsstring

fun fire :: "event \<Rightarrow> state \<Rightarrow> state" where
  "fire (Submit rendered clk) s = handleSubmit rendered clk s"
| "fire (FileSelect file clk) s = handleFileSelect file clk s"
| "fire (SuggestionClick rendered suggestion clk) s = suggestionClick rendered suggestion clk s"
| "fire (ExampleClick clk) s = exampleClick clk s"
| "fire (Change v) s = handleChange v s"
| "fire (Resume n a) s = resume n a s"

fun run :: "event list \<Rightarrow> state \<Rightarrow> state" where
  "run [] s = s"
| "run (e # es) s = run es (fire e s)"

text \<open>The events of one flow after its start, in the order of its body.\<close>

definition own_events :: "nat \<Rightarrow> jsstring \<Rightarrow> event list" where
  "own_events n a = map (\<lambda>k. Resume k a) [1..<Suc n]"

subsection \<open>The three ways the code writes the log\<close>

datatype log_op =
    Append Message
  | Update jsstring "property list"
  | Finish jsstring

fun apply_op :: "log_op \<Rightarrow> state \<Rightarrow> state" where
  "apply_op (Append m) s = append_message m s"
| "apply_op (Update a updates) s = updateAgentMsg a updates s"
| "apply_op (Finish a) s = finishAgentMsg a s"

fun apply_ops :: "log_op list \<Rightarrow> state \<Rightarrow> state" where
  "apply_ops [] s = s"
| "apply_ops (x # xs) s = apply_ops xs (apply_op x s)"

fun appended :: "log_op list \<Rightarrow> Message list" where
  "appended [] = []"
| "appended (Append m # xs) = m # appended xs"
| "appended (_ # xs) = appended xs"

text \<open>What makes a turn the turn it is: everything but its response and its flag.\<close>

definition turn_key :: "Message \<Rightarrow> jsstring \<times> sender \<times> jsstring \<times> nat" where
  "turn_key m = (msg_id m, type m, content m, timestamp m)"

section \<open>Vocabulary of the properties\<close>

text \<open>The initial state of the component.\<close>

definition initial_state :: state where
  "initial_state = \<lparr>messages = [], inputValue = [], isProcessing = False, currentProcessLog = []\<rparr>"

text \<open>The response of the message at a position of the log.\<close>

definition response_at :: "nat \<Rightarrow> state \<Rightarrow> AgentResponse option" where
  "response_at p s = (if p < length (messages s) then agentResponse (messages s ! p) else None)"

definition streaming_at :: "nat \<Rightarrow> state \<Rightarrow> bool option" where
  "streaming_at p s = (if p < length (messages s) then isStreaming (messages s ! p) else None)"

text \<open>
  The position at which a flow started in state \<open>s\<close> puts its agent message: after the
  messages of \<open>s\<close> and its own user message.
\<close>

definition agent_pos :: "state \<Rightarrow> nat" where
  "agent_pos s = Suc (length (messages s))"

text \<open>\<open>keeps r r'\<close>: every property that \<open>r\<close> has, \<open>r'\<close> has with the same value.\<close>

definition kept :: "'a option \<Rightarrow> 'a option \<Rightarrow> bool" where
  "kept x y = (x = None \<or> y = x)"

definition keeps :: "AgentResponse \<Rightarrow> AgentResponse \<Rightarrow> bool" where
  "keeps r r' =
     (kept (user_query r) (user_query r') \<and>
      kept (user_profile r) (user_profile r') \<and>
      kept (image_data r) (image_data r') \<and>
      kept (product_json r) (product_json r') \<and>
      kept (plan r) (plan r') \<and>
      kept (search_needed r) (search_needed r') \<and>
      kept (search_queries r) (search_queries r') \<and>
      kept (search_results r) (search_results r') \<and>
      kept (final_verdict r) (final_verdict r') \<and>
      kept (reasoning r) (reasoning r') \<and>
      kept (next_suggestion r) (next_suggestion r') \<and>
      kept (conversation_summary r) (conversation_summary r'))"

text \<open>The name of a property, and the property as a response has it.\<close>

fun name :: "property \<Rightarrow> string" where
  "name (User_query v) = ''user_query''"
| "name (User_profile v) = ''user_profile''"
| "name (Image_data v) = ''image_data''"
| "name (Product_json v) = ''product_json''"
| "name (Plan v) = ''plan''"
| "name (Search_needed v) = ''search_needed''"
| "name (Search_queries v) = ''search_queries''"
| "name (Search_results v) = ''search_results''"
| "name (Final_verdict v) = ''final_verdict''"
| "name (Reasoning v) = ''reasoning''"
| "name (Next_suggestion v) = ''next_suggestion''"
| "name (Conversation_summary v) = ''conversation_summary''"

fun current :: "property \<Rightarrow> AgentResponse \<Rightarrow> property" where
  "current (User_query v) r = User_query (user_query r)"
| "current (User_profile v) r = User_profile (user_profile r)"
| "current (Image_data v) r = Image_data (image_data r)"
| "current (Product_json v) r = Product_json (product_json r)"
| "current (Plan v) r = Plan (plan r)"
| "current (Search_needed v) r = Search_needed (search_needed r)"
| "current (Search_queries v) r = Search_queries (search_queries r)"
| "current (Search_results v) r = Search_results (search_results r)"
| "current (Final_verdict v) r = Final_verdict (final_verdict r)"
| "current (Reasoning v) r = Reasoning (reasoning r)"
| "current (Next_suggestion v) r = Next_suggestion (next_suggestion r)"
| "current (Conversation_summary v) r = Conversation_summary (conversation_summary r)"

text \<open>The assignments that an update makes to the property of \<open>p\<close>, in order.\<close>

definition assignments :: "property \<Rightarrow> property list \<Rightarrow> property list" where
  "assignments p updates = filter (\<lambda>q. name q = name p) updates"

text \<open>What an event does to a message that is already in the log.\<close>

definition touched :: "nat \<Rightarrow> jsstring \<Rightarrow> Message \<Rightarrow> Message" where
  "touched n a =
     (if n = 2 then merge_into a extract_update
      else if n = 3 then merge_into a reason_update
      else if n = 4 then merge_into a search_update
      else if n = 5 then stop_streaming a \<circ> merge_into a verdict_update
      else (\<lambda>m. m))"

fun touch :: "event \<Rightarrow> Message \<Rightarrow> Message" where
  "touch (Resume n a) m = touched n a m"
| "touch _ m = m"

fun evolve :: "event list \<Rightarrow> Message \<Rightarrow> Message" where
  "evolve [] m = m"
| "evolve (e # es) m = evolve es (touch e m)"

text \<open>The update that the piece after the \<open>n\<close>-th \<^verbatim>\<open>await\<close> merges.\<close>

definition stage_update :: "nat \<Rightarrow> property list" where
  "stage_update n =
     (if n = 2 then extract_update
      else if n = 3 then reason_update
      else if n = 4 then search_update
      else if n = 5 then verdict_update
      else [])"

text \<open>
  \<open>scripted r\<close>: each property that a stage sets is either unset in \<open>r\<close> or has the value
  the script gives it.
\<close>

definition scripted :: "AgentResponse \<Rightarrow> bool" where
  "scripted r =
     ((product_json r = None \<or> product_json r = Some (val demo_product)) \<and>
      (plan r = None \<or> plan r = Some demo_plan) \<and>
      (search_needed r = None \<or> search_needed r = Some True) \<and>
      (search_queries r = None \<or> search_queries r = Some demo_queries) \<and>
      (final_verdict r = None \<or> final_verdict r = Some AVOID) \<and>
      (reasoning r = None \<or> reasoning r = Some demo_reasoning) \<and>
      (next_suggestion r = None \<or> next_suggestion r = Some demo_suggestions))"

text \<open>Clock readings for the examples: one millisecond passes inside the start of a flow.\<close>

definition example_clock :: clock where
  "example_clock = \<lparr>now_user = 1700000000000, date_user = 1700000000000,
     now_agent = 1700000000000, date_agent = 1700000000001\<rparr>"

text \<open>A response without the two properties that echo the input of the flow.\<close>

definition without_inputs :: "AgentResponse \<Rightarrow> AgentResponse" where
  "without_inputs r = r\<lparr>user_query := None, image_data := None\<rparr>"

text \<open>Clock readings half a second after \<open>example_clock\<close>.\<close>

definition later_clock :: clock where
  "later_clock = \<lparr>now_user = 1700000000500, date_user = 1700000000500,
     now_agent = 1700000000500, date_agent = 1700000000500\<rparr>"

text \<open>
  The user types \<^verbatim>\<open>hello\<close> and then uploads an image: a flow is running and the text is
  still in the input.
\<close>

definition typed_then_uploaded :: state where
  "typed_then_uploaded =
     handleFileSelect (Some (val (str ''data:image/png;base64,iVBORw0KGgo=''))) example_clock
       (handleChange (str ''hello'') initial_state)"

section \<open>Properties\<close>

subsection \<open>The log under events\<close>

lemma messages_begin_flow:
  "messages (begin_flow q img clk s) = messages s @ [userMsg q clk, agentMsg q img clk]"
  by (simp add: begin_flow_def append_message_def Let_def)

lemma begin_flow_cells:
  "isProcessing (begin_flow q img clk s)"
  "inputValue (begin_flow q img clk s) = inputValue s"
  "currentProcessLog (begin_flow q img clk s) = str ''SCANNING IMAGE PIXELS...''"
  by (simp_all add: begin_flow_def append_message_def Let_def)

lemma messages_resume: "messages (resume n a s) = map (touched n a) (messages s)"
  by (simp add: resume_def touched_def after_scan_def after_extract_def after_reason_def
      after_search_def after_verdict_def updateAgentMsg_def finishAgentMsg_def)

lemma msg_id_touched [simp]: "msg_id (touched n a m) = msg_id m"
  by (simp add: touched_def merge_into_def stop_streaming_def)

lemma msg_id_touch [simp]: "msg_id (touch e m) = msg_id m"
  by (cases e) simp_all

lemma msg_id_evolve [simp]: "msg_id (evolve es m) = msg_id m"
  by (induction es arbitrary: m) simp_all

lemma turn_key_touched [simp]: "turn_key (touched n a m) = turn_key m"
  by (simp add: touched_def merge_into_def stop_streaming_def turn_key_def)

lemma touch_other:
  "touch (Submit rendered clk) = (\<lambda>m. m)"
  "touch (FileSelect file clk) = (\<lambda>m. m)"
  "touch (SuggestionClick rendered x clk) = (\<lambda>m. m)"
  "touch (ExampleClick clk) = (\<lambda>m. m)"
  "touch (Change v) = (\<lambda>m. m)"
  "touch (Resume n a) = touched n a"
  by (rule ext, simp)+

lemma fire_messages: "\<exists>new. messages (fire e s) = map (touch e) (messages s) @ new"
proof (cases e)
  case (Submit rendered clk)
  then show ?thesis by (simp add: handleSubmit_def messages_begin_flow touch_other)
next
  case (FileSelect f clk)
  then show ?thesis by (cases f) (simp_all add: handleFileSelect_def messages_begin_flow touch_other)
next
  case (SuggestionClick rendered x clk)
  then show ?thesis by (simp add: suggestionClick_def messages_begin_flow touch_other)
next
  case (ExampleClick clk)
  then show ?thesis by (simp add: exampleClick_def messages_begin_flow touch_other)
next
  case (Change v)
  then show ?thesis by (simp add: handleChange_def touch_other)
next
  case (Resume n a)
  then show ?thesis by (simp add: messages_resume touch_other)
qed

lemma fire_nth:
  assumes "p < length (messages s)"
  shows "p < length (messages (fire e s)) \<and> messages (fire e s) ! p = touch e (messages s ! p)"
proof -
  obtain new where "messages (fire e s) = map (touch e) (messages s) @ new"
    using fire_messages by blast
  with assms show ?thesis by (simp add: nth_append)
qed

lemma run_nth:
  "p < length (messages s) \<Longrightarrow>
   p < length (messages (run es s)) \<and> messages (run es s) ! p = evolve es (messages s ! p)"
proof (induction es arbitrary: s)
  case Nil
  then show ?case by simp
next
  case (Cons e es)
  from fire_nth [OF Cons.prems, of e]
  have 1: "p < length (messages (fire e s))"
    and 2: "messages (fire e s) ! p = touch e (messages s ! p)" by simp_all
  from Cons.IH [OF 1] 2 show ?case by simp
qed

lemma run_append: "run (es @ es') s = run es' (run es s)"
  by (induction es arbitrary: s) simp_all

lemma evolve_append: "evolve (es @ es') m = evolve es' (evolve es m)"
  by (induction es arbitrary: m) simp_all

lemma agent_nth_begin_flow:
  "agent_pos s < length (messages (begin_flow q img clk s))"
  "messages (begin_flow q img clk s) ! agent_pos s = agentMsg q img clk"
  by (simp_all add: messages_begin_flow agent_pos_def nth_append)

lemma run_agent:
  "agent_pos s < length (messages (run es (begin_flow q img clk s))) \<and>
   messages (run es (begin_flow q img clk s)) ! agent_pos s = evolve es (agentMsg q img clk)"
  using run_nth [OF agent_nth_begin_flow(1), where es = es and s1 = s and q1 = q and ?img1 = img and clk1 = clk]
  by (simp add: agent_nth_begin_flow(2))

lemma resume_upto_run: "resume_upto n a s = run (own_events n a) s"
proof (induction n)
  case 0
  then show ?case by (simp add: own_events_def)
next
  case (Suc n)
  have "own_events (Suc n) a = own_events n a @ [Resume (Suc n) a]"
    by (simp add: own_events_def)
  with Suc show ?case by (simp add: run_append)
qed

lemma flow_until_run:
  "flow_until n q img clk s = run (own_events n (agentMsgId clk)) (begin_flow q img clk s)"
  by (simp add: flow_until_def resume_upto_run)

subsection \<open>Spread and the stage updates\<close>

lemma spread_empty: "spread r [] = r"
  by (simp add: spread_def)

lemma spread_scripted:
  "spread r extract_update = r\<lparr>product_json := Some (val demo_product)\<rparr>"
  "spread r reason_update = r\<lparr>plan := Some demo_plan\<rparr>"
  "spread r search_update =
     r\<lparr>search_needed := Some True, search_queries := Some demo_queries\<rparr>"
  "spread r verdict_update =
     r\<lparr>final_verdict := Some AVOID, reasoning := Some demo_reasoning,
       next_suggestion := Some demo_suggestions\<rparr>"
  by (simp_all add: spread_def extract_update_def reason_update_def search_update_def
      verdict_update_def)

lemma isStreaming_merge_into [simp]: "isStreaming (merge_into a u m) = isStreaming m"
  by (simp add: merge_into_def)

lemma isStreaming_touch:
  "isStreaming (touch e m) = (if e = Resume 5 (msg_id m) then Some False else isStreaming m)"
  by (cases e) (auto simp: touched_def stop_streaming_def merge_into_def)

lemma isStreaming_evolve:
  "isStreaming (evolve es m) =
     (if Resume 5 (msg_id m) \<in> set es then Some False else isStreaming m)"
  by (induction es arbitrary: m) (simp_all add: isStreaming_touch del: touch.simps)

lemma agentResponse_touched:
  "agentResponse (touched n a m) =
     (if msg_id m = a \<and> 2 \<le> n \<and> n \<le> 5
      then Some (spread_onto (agentResponse m) (stage_update n))
      else agentResponse m)"
  by (auto simp: touched_def stage_update_def merge_into_def stop_streaming_def)

lemma keeps_refl: "keeps r r"
  by (simp add: keeps_def kept_def)

lemma kept_trans: "kept x y \<Longrightarrow> kept y z \<Longrightarrow> kept x z"
  by (auto simp: kept_def)

lemma keeps_trans: "keeps r r' \<Longrightarrow> keeps r' r'' \<Longrightarrow> keeps r r''"
  unfolding keeps_def by (blast intro: kept_trans)

lemma kept_same [simp]: "kept x x"
  by (simp add: kept_def)

lemma scripted_extract:
  "scripted r \<Longrightarrow> scripted (spread r extract_update) \<and> keeps r (spread r extract_update)"
  unfolding scripted_def keeps_def by (auto simp: spread_scripted kept_def)

lemma scripted_reason:
  "scripted r \<Longrightarrow> scripted (spread r reason_update) \<and> keeps r (spread r reason_update)"
  unfolding scripted_def keeps_def by (auto simp: spread_scripted kept_def)

lemma scripted_search:
  "scripted r \<Longrightarrow> scripted (spread r search_update) \<and> keeps r (spread r search_update)"
  unfolding scripted_def keeps_def by (auto simp: spread_scripted kept_def)

lemma scripted_verdict:
  "scripted r \<Longrightarrow> scripted (spread r verdict_update) \<and> keeps r (spread r verdict_update)"
  unfolding scripted_def keeps_def by (auto simp: spread_scripted kept_def)

lemma scripted_spread:
  assumes "scripted r"
  shows "scripted (spread r (stage_update n)) \<and> keeps r (spread r (stage_update n))"
  using assms scripted_extract scripted_reason scripted_search scripted_verdict
  by (simp add: stage_update_def spread_empty keeps_refl)

subsection \<open>The agent message of a flow under a schedule\<close>

lemma stage_update_inputs [simp]:
  "user_query (spread r (stage_update n)) = user_query r"
  "image_data (spread r (stage_update n)) = image_data r"
  by (simp_all add: stage_update_def spread_scripted spread_empty)

lemma response_touch:
  assumes "agentResponse m = Some r" and "scripted r"
  shows "\<exists>r'. agentResponse (touch e m) = Some r' \<and> scripted r' \<and> keeps r r' \<and>
           user_query r' = user_query r \<and> image_data r' = image_data r"
proof (cases e)
  case (Resume n a)
  show ?thesis
  proof (cases "msg_id m = a \<and> 2 \<le> n \<and> n \<le> 5")
    case True
    with assms Resume show ?thesis
      by (simp add: agentResponse_touched spread_onto_def scripted_spread)
  next
    case False
    with assms Resume show ?thesis
      by (auto simp: agentResponse_touched keeps_refl)
  qed
qed (use assms in \<open>simp_all add: keeps_refl\<close>)

lemma response_evolve:
  assumes "agentResponse m = Some r" and "scripted r"
  shows "\<exists>r'. agentResponse (evolve es m) = Some r' \<and> scripted r' \<and> keeps r r' \<and>
           user_query r' = user_query r \<and> image_data r' = image_data r"
  using assms
proof (induction es arbitrary: m r)
  case Nil
  then show ?case by (simp add: keeps_refl)
next
  case (Cons e es)
  from response_touch [OF Cons.prems, of e] obtain r1 where
    1: "agentResponse (touch e m) = Some r1" "scripted r1" "keeps r r1"
       "user_query r1 = user_query r" "image_data r1 = image_data r" by blast
  from Cons.IH [OF 1(1,2)] obtain r2 where
    2: "agentResponse (evolve es (touch e m)) = Some r2" "scripted r2" "keeps r1 r2"
       "user_query r2 = user_query r1" "image_data r2 = image_data r1" by blast
  from 1 2 show ?case by (auto intro: keeps_trans)
qed

lemma scripted_initialResponse: "scripted (initialResponse q img)"
  by (simp add: scripted_def initialResponse_def no_properties_def)

lemma initialResponse_inputs:
  "user_query (initialResponse q img) = Some q" "image_data (initialResponse q img) = Some img"
  by (simp_all add: initialResponse_def no_properties_def)

lemma agentMsg_sel [simp]:
  "msg_id (agentMsg q img clk) = agentMsgId clk"
  "type (agentMsg q img clk) = agent"
  "content (agentMsg q img clk) = []"
  "agentResponse (agentMsg q img clk) = Some (initialResponse q img)"
  "timestamp (agentMsg q img clk) = date_agent clk"
  "isStreaming (agentMsg q img clk) = Some True"
  by (simp_all add: agentMsg_def)

lemma response_at_run:
  "response_at (agent_pos s) (run es (begin_flow q img clk s)) =
     agentResponse (evolve es (agentMsg q img clk))"
  using run_agent [of s es q img clk] by (simp add: response_at_def)

lemma streaming_at_run:
  "streaming_at (agent_pos s) (run es (begin_flow q img clk s)) =
     isStreaming (evolve es (agentMsg q img clk))"
  using run_agent [of s es q img clk] by (simp add: streaming_at_def)

lemma response_run:
  "\<exists>r. response_at (agent_pos s) (run es (begin_flow q img clk s)) = Some r \<and> scripted r \<and>
        user_query r = Some q \<and> image_data r = Some img"
  using response_evolve [of "agentMsg q img clk" "initialResponse q img" es]
  by (auto simp: response_at_run scripted_initialResponse initialResponse_inputs)

lemma response_run_keeps:
  "\<exists>r r'. response_at (agent_pos s) (run es (begin_flow q img clk s)) = Some r \<and>
          response_at (agent_pos s) (run (es @ es') (begin_flow q img clk s)) = Some r' \<and>
          keeps r r'"
proof -
  obtain r where r: "agentResponse (evolve es (agentMsg q img clk)) = Some r" "scripted r"
    using response_evolve [of "agentMsg q img clk" "initialResponse q img" es]
    by (auto simp: scripted_initialResponse)
  from response_evolve [OF r, of es'] obtain r' where
    "agentResponse (evolve es' (evolve es (agentMsg q img clk))) = Some r'" "keeps r r'" by blast
  with r show ?thesis by (auto simp: response_at_run evolve_append)
qed

lemma own_events_split: "i \<le> j \<Longrightarrow> \<exists>es'. own_events j a = own_events i a @ es'"
proof -
  assume "i \<le> j"
  then have "[1..<Suc j] = [1..<Suc i] @ [Suc i..<Suc j]"
    using upt_add_eq_append [of 1 "Suc i" "j - i"] by simp
  then show ?thesis by (simp add: own_events_def)
qed

lemma Resume_in_own_events: "Resume k b \<in> set (own_events n a) \<longleftrightarrow> b = a \<and> 1 \<le> k \<and> k \<le> n"
  by (auto simp: own_events_def)


subsection \<open>A flow running alone\<close>

lemma evolve_own_events_Suc:
  "evolve (own_events (Suc n) a) m = touched (Suc n) a (evolve (own_events n a) m)"
proof -
  have "own_events (Suc n) a = own_events n a @ [Resume (Suc n) a]"
    by (simp add: own_events_def)
  then show ?thesis by (simp add: evolve_append)
qed

lemma evolve_own_events_0: "evolve (own_events 0 a) m = m"
  by (simp add: own_events_def)

lemma response_flow_until_0:
  "response_at (agent_pos s) (flow_until 0 q img clk s) = Some (initialResponse q img)"
  by (simp add: flow_until_run response_at_run evolve_own_events_0)

lemma response_flow_until_Suc:
  "response_at (agent_pos s) (flow_until (Suc n) q img clk s) =
     (if 1 \<le> n \<and> n \<le> 4
      then Some (spread_onto (response_at (agent_pos s) (flow_until n q img clk s))
                   (stage_update (Suc n)))
      else response_at (agent_pos s) (flow_until n q img clk s))"
  by (simp add: flow_until_run response_at_run evolve_own_events_Suc agentResponse_touched)

lemma log_resume:
  "currentProcessLog (resume n a s) =
     (if n = 1 then str ''EXTRACTING ENTITIES VIA GEMINI 2.0...''
      else if n = 2 then str ''CROSS-REFERENCING HEALTH PROFILE...''
      else if n = 3 then str ''VERIFYING ANAPHYLAXIS PROTOCOLS...''
      else if n = 4 then str ''GENERATING SAFETY VERDICT...''
      else if n = 5 then []
      else currentProcessLog s)"
  by (simp add: resume_def after_scan_def after_extract_def after_reason_def
      after_search_def after_verdict_def updateAgentMsg_def finishAgentMsg_def)

lemma flow_until_0: "flow_until 0 q img clk s = begin_flow q img clk s"
  by (simp add: flow_until_def)

lemma flow_until_Suc:
  "flow_until (Suc n) q img clk s = resume (Suc n) (agentMsgId clk) (flow_until n q img clk s)"
  by (simp add: flow_until_def)

lemma simulateAgentFlow_flow_until:
  "simulateAgentFlow q img clk s = flow_until 5 q img clk s"
  by (simp add: simulateAgentFlow_def flow_until_def eval_nat_numeral resume_def Let_def)

lemma responses_alone:
  "response_at (agent_pos s) (flow_until 0 q img clk s) = Some (initialResponse q img)"
  "response_at (agent_pos s) (flow_until (Suc 0) q img clk s) = Some (initialResponse q img)"
  "response_at (agent_pos s) (flow_until 2 q img clk s) =
     Some ((initialResponse q img)\<lparr>product_json := Some (val demo_product)\<rparr>)"
  "response_at (agent_pos s) (flow_until 3 q img clk s) =
     Some ((initialResponse q img)
       \<lparr>product_json := Some (val demo_product), plan := Some demo_plan\<rparr>)"
  "response_at (agent_pos s) (flow_until 4 q img clk s) =
     Some ((initialResponse q img)
       \<lparr>product_json := Some (val demo_product), plan := Some demo_plan,
        search_needed := Some True,
        search_queries := Some demo_queries\<rparr>)"
  "response_at (agent_pos s) (flow_until 5 q img clk s) =
     Some ((initialResponse q img)
       \<lparr>product_json := Some (val demo_product), plan := Some demo_plan,
        search_needed := Some True,
        search_queries := Some demo_queries,
        final_verdict := Some AVOID,
        reasoning := Some demo_reasoning,
        next_suggestion := Some demo_suggestions\<rparr>)"
proof -
  show 0: "response_at (agent_pos s) (flow_until 0 q img clk s) = Some (initialResponse q img)"
    by (rule response_flow_until_0)
  show 1: "response_at (agent_pos s) (flow_until (Suc 0) q img clk s) = Some (initialResponse q img)"
    using response_flow_until_Suc [of s 0 q img clk] 0 by simp
  show 2: "response_at (agent_pos s) (flow_until 2 q img clk s) =
     Some ((initialResponse q img)\<lparr>product_json := Some (val demo_product)\<rparr>)"
    using response_flow_until_Suc [of s 1 q img clk] 1
    by (simp add: numeral_2_eq_2 spread_onto_def stage_update_def spread_scripted)
  show 3: "response_at (agent_pos s) (flow_until 3 q img clk s) =
     Some ((initialResponse q img)
       \<lparr>product_json := Some (val demo_product), plan := Some demo_plan\<rparr>)"
    using response_flow_until_Suc [of s 2 q img clk] 2
    by (simp add: numeral_3_eq_3 numeral_2_eq_2 spread_onto_def stage_update_def spread_scripted)
  have n4: "(4::nat) = Suc 3" and n5: "(5::nat) = Suc 4" by simp_all
  show 4: "response_at (agent_pos s) (flow_until 4 q img clk s) =
     Some ((initialResponse q img)
       \<lparr>product_json := Some (val demo_product), plan := Some demo_plan,
        search_needed := Some True,
        search_queries := Some demo_queries\<rparr>)"
    using response_flow_until_Suc [of s 3 q img clk] 3
    by (simp add: n4 [symmetric] spread_onto_def stage_update_def spread_scripted)
  show "response_at (agent_pos s) (flow_until 5 q img clk s) =
     Some ((initialResponse q img)
       \<lparr>product_json := Some (val demo_product), plan := Some demo_plan,
        search_needed := Some True,
        search_queries := Some demo_queries,
        final_verdict := Some AVOID,
        reasoning := Some demo_reasoning,
        next_suggestion := Some demo_suggestions\<rparr>)"
    using response_flow_until_Suc [of s 4 q img clk] 4
    by (simp add: n5 [symmetric] spread_onto_def stage_update_def spread_scripted)
qed

lemma upt_5: "[0..<5] = [0, 1, 2, 3, 4]"
  by (simp add: upt_rec)

lemma logs_alone:
  "currentProcessLog (flow_until 0 q img clk s) = str ''SCANNING IMAGE PIXELS...''"
  "currentProcessLog (flow_until (Suc 0) q img clk s) = str ''EXTRACTING ENTITIES VIA GEMINI 2.0...''"
  "currentProcessLog (flow_until 2 q img clk s) = str ''CROSS-REFERENCING HEALTH PROFILE...''"
  "currentProcessLog (flow_until 3 q img clk s) = str ''VERIFYING ANAPHYLAXIS PROTOCOLS...''"
  "currentProcessLog (flow_until 4 q img clk s) = str ''GENERATING SAFETY VERDICT...''"
  "currentProcessLog (flow_until 5 q img clk s) = []"
proof -
  have n: "(1::nat) = Suc 0" "(2::nat) = Suc 1" "(3::nat) = Suc 2" "(4::nat) = Suc 3"
    "(5::nat) = Suc 4" by simp_all
  show "currentProcessLog (flow_until 0 q img clk s) = str ''SCANNING IMAGE PIXELS...''"
    by (simp add: flow_until_0 begin_flow_cells)
  show "currentProcessLog (flow_until (Suc 0) q img clk s) = str ''EXTRACTING ENTITIES VIA GEMINI 2.0...''"
    by (subst flow_until_Suc) (simp add: log_resume)
  show "currentProcessLog (flow_until 2 q img clk s) = str ''CROSS-REFERENCING HEALTH PROFILE...''"
    by (subst n(2), subst flow_until_Suc) (simp add: log_resume)
  show "currentProcessLog (flow_until 3 q img clk s) = str ''VERIFYING ANAPHYLAXIS PROTOCOLS...''"
    by (subst n(3), subst flow_until_Suc) (simp add: log_resume)
  show "currentProcessLog (flow_until 4 q img clk s) = str ''GENERATING SAFETY VERDICT...''"
    by (subst n(4), subst flow_until_Suc) (simp add: log_resume)
  show "currentProcessLog (flow_until 5 q img clk s) = []"
    by (subst n(5), subst flow_until_Suc) (simp add: log_resume)
qed

lemma turn_key_touch [simp]: "turn_key (touch e m) = turn_key m"
  by (cases e) simp_all

lemma turn_key_evolve [simp]: "turn_key (evolve es m) = turn_key m"
  by (induction es arbitrary: m) simp_all

lemma user_nth_begin_flow:
  "length (messages s) < length (messages (begin_flow q img clk s))"
  "messages (begin_flow q img clk s) ! length (messages s) = userMsg q clk"
  by (simp_all add: messages_begin_flow nth_append)

lemma length_run_own: "length (messages (run (own_events n a) s)) = length (messages s)"
  by (induction n arbitrary: s) (simp_all add: resume_upto_run [symmetric] messages_resume)

subsection \<open>Turn order\<close>

lemma turn_key_merge_into [simp]: "turn_key (merge_into a u m) = turn_key m"
  by (simp add: merge_into_def turn_key_def)

lemma turn_key_stop_streaming [simp]: "turn_key (stop_streaming a m) = turn_key m"
  by (simp add: stop_streaming_def turn_key_def)

lemma apply_op_keys:
  "map turn_key (messages (apply_op x s)) = map turn_key (messages s) @ map turn_key (appended [x])"
  by (cases x) (simp_all add: append_message_def updateAgentMsg_def finishAgentMsg_def comp_def)

lemma appended_Cons: "appended (x # xs) = appended [x] @ appended xs"
  by (cases x) simp_all

lemma apply_ops_keys:
  "map turn_key (messages (apply_ops ops s)) = map turn_key (messages s) @ map turn_key (appended ops)"
proof (induction ops arbitrary: s)
  case Nil
  then show ?case by simp
next
  case (Cons x xs)
  have "map turn_key (messages (apply_ops (x # xs) s)) =
        map turn_key (messages (apply_op x s)) @ map turn_key (appended xs)"
    using Cons.IH [of "apply_op x s"] by simp
  also have "\<dots> = map turn_key (messages s) @ map turn_key (appended [x] @ appended xs)"
    by (simp add: apply_op_keys)
  finally show ?case by (simp add: appended_Cons [of x xs])
qed

lemma run_keys: "\<exists>new. map turn_key (messages (run es s)) = map turn_key (messages s) @ new"
proof (induction es arbitrary: s)
  case Nil
  then show ?case by simp
next
  case (Cons e es)
  obtain n1 where 1: "messages (fire e s) = map (touch e) (messages s) @ n1"
    using fire_messages by blast
  obtain n2 where 2: "map turn_key (messages (run es (fire e s))) = map turn_key (messages (fire e s)) @ n2"
    using Cons.IH by blast
  from 1 2 show ?case by (simp add: comp_def)
qed

lemma current_assign:
  "current p (assign q r) = (if name q = name p then q else current p r)"
  by (cases p; cases q) simp_all

lemma spread_snoc: "spread a (u @ [q]) = assign q (spread a u)"
  by (simp add: spread_def)

lemma current_spread:
  "current p (spread a u) =
     (if assignments p u = [] then current p a else last (assignments p u))"
proof (induction u rule: rev_induct)
  case Nil
  then show ?case by (simp add: spread_def assignments_def)
next
  case (snoc q u)
  then show ?case by (simp add: spread_snoc current_assign assignments_def)
qed

lemma nth_updateAgentMsg:
  "p < length (messages s) \<Longrightarrow>
   agentResponse (messages (updateAgentMsg i u s) ! p) =
     (if msg_id (messages s ! p) = i
      then Some (spread_onto (agentResponse (messages s ! p)) u)
      else agentResponse (messages s ! p))"
  by (simp add: updateAgentMsg_def merge_into_def)

subsection \<open>The guard and the cells\<close>

lemma trim_empty_iff: "trim s = [] \<longleftrightarrow> (\<forall>c\<in>set s. isWhiteSpace c)"
proof -
  have "trim s = [] \<longleftrightarrow> (\<forall>c\<in>set (dropWhile isWhiteSpace s). isWhiteSpace c)"
    by (simp only: trim_def rev_is_Nil_conv dropWhile_eq_Nil_conv set_rev)
  also have "\<dots> \<longleftrightarrow> dropWhile isWhiteSpace s = []"
    using hd_dropWhile [of isWhiteSpace s]
    by (cases "dropWhile isWhiteSpace s") (auto dest: set_dropWhileD)
  also have "\<dots> \<longleftrightarrow> (\<forall>c\<in>set s. isWhiteSpace c)"
    by (simp add: dropWhile_eq_Nil_conv)
  finally show ?thesis .
qed

lemma handleChange_cells [simp]:
  "messages (handleChange v s) = messages s"
  "inputValue (handleChange v s) = v"
  "isProcessing (handleChange v s) = isProcessing s"
  "currentProcessLog (handleChange v s) = currentProcessLog s"
  by (simp_all add: handleChange_def)

lemma initial_state_cells [simp]:
  "messages initial_state = []" "inputValue initial_state = []"
  "\<not> isProcessing initial_state" "currentProcessLog initial_state = []"
  by (simp_all add: initial_state_def)

lemma typed_then_uploaded_cells:
  "isProcessing typed_then_uploaded"
  "inputValue typed_then_uploaded = str ''hello''"
  "length (messages typed_then_uploaded) = 2"
  by (simp_all add: typed_then_uploaded_def handleFileSelect_def begin_flow_cells
      messages_begin_flow)

lemma trim_hello: "trim (str ''hello'') \<noteq> []"
  by (simp add: trim_empty_iff str_def isWhiteSpace_def)

subsection \<open>Two flows compared\<close>

lemma without_inputs_spread:
  "without_inputs (spread r (stage_update n)) = spread (without_inputs r) (stage_update n)"
  by (simp add: without_inputs_def stage_update_def spread_scripted spread_empty)

lemma without_inputs_flow:
  "\<exists>r1 r2. response_at (agent_pos s1) (flow_until n q1 img1 clk1 s1) = Some r1 \<and>
           response_at (agent_pos s2) (flow_until n q2 img2 clk2 s2) = Some r2 \<and>
           without_inputs r1 = without_inputs r2"
proof (induction n)
  case 0
  then show ?case
    by (simp add: response_flow_until_0 without_inputs_def initialResponse_def)
next
  case (Suc n)
  then obtain r1 r2 where
    r: "response_at (agent_pos s1) (flow_until n q1 img1 clk1 s1) = Some r1"
       "response_at (agent_pos s2) (flow_until n q2 img2 clk2 s2) = Some r2"
       "without_inputs r1 = without_inputs r2" by blast
  show ?case
  proof (cases "1 \<le> n \<and> n \<le> 4")
    case True
    with r show ?thesis
      by (simp add: response_flow_until_Suc spread_onto_def without_inputs_spread)
  next
    case False
    with r show ?thesis
      by (auto simp: response_flow_until_Suc)
  qed
qed

lemma keeps_flow_until:
  "i \<le> j \<Longrightarrow>
   \<exists>r r'. response_at (agent_pos s) (flow_until i q img clk s) = Some r \<and>
          response_at (agent_pos s) (flow_until j q img clk s) = Some r' \<and> keeps r r'"
proof -
  assume "i \<le> j"
  then obtain es' where "own_events j (agentMsgId clk) = own_events i (agentMsgId clk) @ es'"
    using own_events_split by blast
  then show ?thesis
    using response_run_keeps [of s "own_events i (agentMsgId clk)" q img clk es']
    by (simp add: flow_until_run)
qed

section \<open>The claims\<close>

text \<open>
  C1 (as amended). A text submission or a click on a follow-up suggestion, made from a
  render in which \<^verbatim>\<open>isProcessing\<close> is true, leaves the whole state as it is, whatever the
  state: no error is signalled, no flow starts, no message is appended.
\<close>

theorem guarded_starts_ignored_while_processing:
  "isProcessing rendered \<Longrightarrow>
   handleSubmit rendered clk s = s \<and> suggestionClick rendered suggestion clk s = s"
  by (simp add: handleSubmit_def suggestionClick_def)

theorem guarded_starts_ignored_while_processing_witness:
  "isProcessing typed_then_uploaded \<and> trim (inputValue typed_then_uploaded) \<noteq> [] \<and>
   handleSubmit typed_then_uploaded later_clock typed_then_uploaded = typed_then_uploaded \<and>
   suggestionClick typed_then_uploaded (str ''View emergency protocol'') later_clock
     typed_then_uploaded = typed_then_uploaded"
  using guarded_starts_ignored_while_processing
    [OF typed_then_uploaded_cells(1), of later_clock typed_then_uploaded
      "str ''View emergency protocol''"]
  by (simp add: typed_then_uploaded_cells trim_hello)

text \<open>
  C1 as stated fails for the image upload, whose handler has no test of \<^verbatim>\<open>isProcessing\<close>:
  with the flow of a first upload running, a second upload appends a second user message
  and a second agent message.
\<close>

theorem upload_while_processing_counterexample:
  "isProcessing typed_then_uploaded \<and>
   map type (messages typed_then_uploaded) = [user, agent] \<and>
   map type (messages (handleFileSelect (Some (val (str ''data:image/png;base64,R0lGODlh'')))
     later_clock typed_then_uploaded)) = [user, agent, user, agent] \<and>
   map isStreaming (messages (handleFileSelect (Some (val (str ''data:image/png;base64,R0lGODlh'')))
     later_clock typed_then_uploaded)) = [None, Some True, None, Some True]"
  by (simp add: typed_then_uploaded_def handleFileSelect_def begin_flow_cells
      messages_begin_flow userMsg_def agentMsg_def)

text \<open>
  C2. A flow running alone waits five times, for 1000, 800, 1000, 1200 and 800 ms. During
  the \<open>k\<close>-th wait the status label is the one of stage \<open>k\<close> (scan, extract, reason, search,
  verdict) and the response of the agent message holds the updates of the stages before
  \<open>k\<close> and no other: scanning adds nothing, extraction adds \<^verbatim>\<open>product_json\<close>, reasoning adds
  \<^verbatim>\<open>plan\<close>, the search adds \<^verbatim>\<open>search_needed\<close> and \<^verbatim>\<open>search_queries\<close> together, and after the
  fifth wait the verdict adds \<^verbatim>\<open>final_verdict\<close>, \<^verbatim>\<open>reasoning\<close> and \<^verbatim>\<open>next_suggestion\<close>.
\<close>

theorem five_stages_in_order:
  "map snd (fst (flow_trace q img clk s)) = [1000, 800, 1000, 1200, 800] \<and>
   map (currentProcessLog \<circ> fst) (fst (flow_trace q img clk s)) =
     [str ''SCANNING IMAGE PIXELS...'', str ''EXTRACTING ENTITIES VIA GEMINI 2.0...'',
      str ''CROSS-REFERENCING HEALTH PROFILE...'', str ''VERIFYING ANAPHYLAXIS PROTOCOLS...'',
      str ''GENERATING SAFETY VERDICT...''] \<and>
   map (response_at (agent_pos s) \<circ> fst) (fst (flow_trace q img clk s)) =
     [Some (initialResponse q img),
      Some (initialResponse q img),
      Some ((initialResponse q img)\<lparr>product_json := Some (val demo_product)\<rparr>),
      Some ((initialResponse q img)
        \<lparr>product_json := Some (val demo_product), plan := Some demo_plan\<rparr>),
      Some ((initialResponse q img)
        \<lparr>product_json := Some (val demo_product), plan := Some demo_plan,
         search_needed := Some True,
         search_queries := Some demo_queries\<rparr>)] \<and>
   response_at (agent_pos s) (snd (flow_trace q img clk s)) =
     Some ((initialResponse q img)
        \<lparr>product_json := Some (val demo_product), plan := Some demo_plan,
         search_needed := Some True,
         search_queries := Some demo_queries,
         final_verdict := Some AVOID,
         reasoning := Some demo_reasoning,
         next_suggestion := Some demo_suggestions\<rparr>) \<and>
   map name extract_update = [''product_json''] \<and> map name reason_update = [''plan''] \<and>
   map name search_update = [''search_needed'', ''search_queries''] \<and>
   map name verdict_update = [''final_verdict'', ''reasoning'', ''next_suggestion'']"
  by (simp add: flow_trace_def upt_5 delays_def logs_alone responses_alone
      simulateAgentFlow_flow_until extract_update_def reason_update_def search_update_def
      verdict_update_def)

text \<open>
  C3. A call of \<^verbatim>\<open>simulateAgentFlow\<close> with a non-empty query and no image appends a user
  message whose content is the query and, right after it, an agent message with
  \<^verbatim>\<open>isStreaming = true\<close>; when the flow has passed its five waits the log has these two
  messages more, the user message still has the query as content, and the agent message
  has \<^verbatim>\<open>isStreaming = false\<close> and a verdict among SAFE, CAUTION and AVOID. A text
  submission that is accepted (its render shows no flow running and a text that is not
  blank) makes this call with the text of the input.
\<close>

theorem text_submission_runs_to_verdict:
  assumes "query \<noteq> []"
  shows "messages (begin_flow query null clk s) =
           messages s @ [userMsg query clk, agentMsg query null clk] \<and>
         type (userMsg query clk) = user \<and> content (userMsg query clk) = query \<and>
         type (agentMsg query null clk) = agent \<and>
         isStreaming (agentMsg query null clk) = Some True \<and>
         length (messages (simulateAgentFlow query null clk s)) = length (messages s) + 2 \<and>
         type (messages (simulateAgentFlow query null clk s) ! length (messages s)) = user \<and>
         content (messages (simulateAgentFlow query null clk s) ! length (messages s)) = query \<and>
         type (messages (simulateAgentFlow query null clk s) ! agent_pos s) = agent \<and>
         streaming_at (agent_pos s) (simulateAgentFlow query null clk s) = Some False \<and>
         (\<exists>r v. response_at (agent_pos s) (simulateAgentFlow query null clk s) = Some r \<and>
            final_verdict r = Some v \<and> v \<in> {SAFE, CAUTION, AVOID}) \<and>
         (\<forall>rendered.
            \<not> isProcessing rendered \<and> inputValue rendered = query \<and> trim query \<noteq> [] \<longrightarrow>
            messages (handleSubmit rendered clk s) = messages (begin_flow query null clk s))"
proof -
  let ?fin = "simulateAgentFlow query null clk s"
  let ?a = "agentMsgId clk"
  have fin: "?fin = run (own_events 5 ?a) (begin_flow query null clk s)"
    by (simp add: simulateAgentFlow_flow_until flow_until_run)
  have len: "length (messages ?fin) = length (messages s) + 2"
    by (simp add: fin length_run_own messages_begin_flow)
  have u: "messages ?fin ! length (messages s) = evolve (own_events 5 ?a) (userMsg query clk)"
    using run_nth [where p = "length (messages s)" and s = "begin_flow query null clk s"
        and es = "own_events 5 ?a"]
    by (simp add: fin user_nth_begin_flow)
  have ag: "messages ?fin ! agent_pos s = evolve (own_events 5 ?a) (agentMsg query null clk)"
    using run_agent [of s "own_events 5 ?a" query null clk] by (simp add: fin)
  have ku: "turn_key (messages ?fin ! length (messages s)) = turn_key (userMsg query clk)"
    by (simp add: u)
  have ka: "turn_key (messages ?fin ! agent_pos s) = turn_key (agentMsg query null clk)"
    by (simp add: ag)
  have st: "streaming_at (agent_pos s) ?fin = Some False"
    by (simp add: simulateAgentFlow_flow_until flow_until_run streaming_at_run isStreaming_evolve
        Resume_in_own_events)
  have v: "\<exists>r v. response_at (agent_pos s) ?fin = Some r \<and>
            final_verdict r = Some v \<and> v \<in> {SAFE, CAUTION, AVOID}"
    by (simp add: simulateAgentFlow_flow_until responses_alone)
  have sub: "\<forall>rendered.
            \<not> isProcessing rendered \<and> inputValue rendered = query \<and> trim query \<noteq> [] \<longrightarrow>
            messages (handleSubmit rendered clk s) = messages (begin_flow query null clk s)"
    by (simp add: handleSubmit_def)
  from assms len ku ka st v sub show ?thesis
    by (simp add: messages_begin_flow turn_key_def userMsg_def)
qed

theorem text_submission_runs_to_verdict_witness:
  "str ''Is X safe?'' \<noteq> [] \<and>
   length (messages (simulateAgentFlow (str ''Is X safe?'') null example_clock initial_state)) = 2 \<and>
   content (messages (simulateAgentFlow (str ''Is X safe?'') null example_clock initial_state) ! 0)
     = str ''Is X safe?'' \<and>
   streaming_at 1 (simulateAgentFlow (str ''Is X safe?'') null example_clock initial_state)
     = Some False \<and>
   trim (str ''Is X safe?'') \<noteq> [] \<and>
   map content (messages (handleSubmit
     (handleChange (str ''Is X safe?'') initial_state) example_clock
     (handleChange (str ''Is X safe?'') initial_state))) = [str ''Is X safe?'', []]"
proof -
  have q: "str ''Is X safe?'' \<noteq> []" by (simp add: str_def)
  have t: "trim (str ''Is X safe?'') \<noteq> []"
    by (simp add: trim_empty_iff str_def isWhiteSpace_def)
  have s: "length (messages initial_state) = 0" "agent_pos initial_state = 1"
    by (simp_all add: agent_pos_def initial_state_def)
  from text_submission_runs_to_verdict [OF q, of example_clock initial_state] q
  have 1: "length (messages (simulateAgentFlow (str ''Is X safe?'') null example_clock initial_state)) = 2 \<and>
    content (messages (simulateAgentFlow (str ''Is X safe?'') null example_clock initial_state) ! 0)
      = str ''Is X safe?'' \<and>
    streaming_at 1 (simulateAgentFlow (str ''Is X safe?'') null example_clock initial_state)
      = Some False"
    by (simp add: s)
  from text_submission_runs_to_verdict
    [OF q, of example_clock "handleChange (str ''Is X safe?'') initial_state"] q t
  have 2: "map content (messages (handleSubmit
     (handleChange (str ''Is X safe?'') initial_state) example_clock
     (handleChange (str ''Is X safe?'') initial_state))) = [str ''Is X safe?'', []]"
    by (simp add: userMsg_def)
  from q t 1 2 show ?thesis by blast
qed

text \<open>
  C5 (as amended). Spreading an update over a response never fails, whatever the response
  and whatever the update. Every property that the update has takes the value the update
  gives it last, also when the response had a value already and also when the value
  given is \<^verbatim>\<open>undefined\<close>; every property that the update does not have keeps the value of
  the response. So an update whose properties are all unset in the response gives the
  union of the two. \<^verbatim>\<open>updateAgentMsg\<close> does this to every message that has the id, and to
  no other, and keeps the length of the log.
\<close>

theorem spread_takes_the_update:
  "current p (spread a u) =
     (if assignments p u = [] then current p a else last (assignments p u)) \<and>
   length (messages (updateAgentMsg i u s)) = length (messages s) \<and>
   (\<forall>k<length (messages s).
      agentResponse (messages (updateAgentMsg i u s) ! k) =
        (if msg_id (messages s ! k) = i
         then Some (spread_onto (agentResponse (messages s ! k)) u)
         else agentResponse (messages s ! k)))"
  using current_spread [of p a u] nth_updateAgentMsg [of _ s i u]
  by (simp add: updateAgentMsg_def)

theorem spread_takes_the_update_witness:
  "(0::nat) < length (messages (begin_flow (str ''q'') null example_clock initial_state)) \<and>
   plan (spread (initialResponse (str ''q'') null) reason_update) = Some demo_plan \<and>
   user_query (spread (initialResponse (str ''q'') null) reason_update) = Some (str ''q'') \<and>
   plan (spread (spread (initialResponse (str ''q'') null) reason_update) [Plan None]) = None \<and>
   agentResponse (messages (updateAgentMsg (str ''no such id'') reason_update
     (begin_flow (str ''q'') null example_clock initial_state)) ! 0) = None"
proof -
  let ?r = "initialResponse (str ''q'') null"
  let ?s = "begin_flow (str ''q'') null example_clock initial_state"
  have len: "(0::nat) < length (messages ?s)"
    by (simp add: messages_begin_flow)
  have 1: "current (Plan None) (spread ?r reason_update) = Plan (Some demo_plan)"
    using spread_takes_the_update [of "Plan None" ?r reason_update]
    by (simp add: assignments_def reason_update_def)
  have 2: "current (User_query None) (spread ?r reason_update) = User_query (Some (str ''q''))"
    using spread_takes_the_update [of "User_query None" ?r reason_update]
    by (simp add: assignments_def reason_update_def initialResponse_def no_properties_def)
  have 3: "current (Plan None) (spread (spread ?r reason_update) [Plan None]) = Plan None"
    using spread_takes_the_update [of "Plan None" "spread ?r reason_update" "[Plan None]"]
    by (simp add: assignments_def)
  have nid: "msg_id (userMsg (str ''q'') example_clock) \<noteq> str ''no such id''"
    by (simp add: userMsg_def userMsgId_def example_clock_def toString.simps [of 1700000000000]
        str_def)
  have 4: "agentResponse (messages (updateAgentMsg (str ''no such id'') reason_update ?s) ! 0)
      = None"
    using spread_takes_the_update [of _ _ reason_update "str ''no such id''" ?s] len nid
    by (simp add: messages_begin_flow userMsg_def)
  from len 1 2 3 4 show ?thesis by simp
qed

text \<open>
  C5 as stated fails: an update that sets \<^verbatim>\<open>plan\<close> on a response that has a \<^verbatim>\<open>plan\<close> replaces
  it, in \<open>spread\<close> and so in \<^verbatim>\<open>updateAgentMsg\<close>; the update of the reasoning stage does so too,
  and merged a second time it is accepted again.
\<close>

theorem merge_overwrites_counterexample:
  "plan (spread (no_properties\<lparr>user_query := Some (str ''q''), plan := Some (str ''first'')\<rparr>)
          [Plan (Some (str ''second''))]) = Some (str ''second'') \<and>
   str ''first'' \<noteq> str ''second'' \<and>
   messages (updateAgentMsg (str ''7'') [Plan (Some (str ''second''))]
     (initial_state\<lparr>messages :=
        [\<lparr>msg_id = str ''7'', type = agent, content = [],
          agentResponse = Some (no_properties\<lparr>user_query := Some (str ''q''), plan := Some (str ''first'')\<rparr>),
          timestamp = 6, isStreaming = Some True\<rparr>]\<rparr>)) =
     [\<lparr>msg_id = str ''7'', type = agent, content = [],
       agentResponse = Some (no_properties\<lparr>user_query := Some (str ''q''), plan := Some (str ''second'')\<rparr>),
       timestamp = 6, isStreaming = Some True\<rparr>] \<and>
   plan (spread (no_properties\<lparr>user_query := Some (str ''q''), plan := Some (str ''first'')\<rparr>)
          reason_update) = Some demo_plan \<and>
   spread (spread (initialResponse (str ''q'') null) reason_update) reason_update =
     spread (initialResponse (str ''q'') null) reason_update"
  by (simp add: updateAgentMsg_def merge_into_def spread_onto_def spread_def no_properties_def
      reason_update_def str_def)

text \<open>
  C6. Whatever property the response of a flow's agent message has at some moment, it has
  with the same value at every later moment: between any two of the waits of a flow
  running alone, and also along any schedule of events of the component. Spreading the
  empty update over a response changes nothing.
\<close>

theorem fields_never_overwritten:
  "(\<forall>i j. i \<le> j \<longrightarrow>
      (\<exists>r r'. response_at (agent_pos s) (flow_until i q img clk s) = Some r \<and>
              response_at (agent_pos s) (flow_until j q img clk s) = Some r' \<and> keeps r r')) \<and>
   (\<forall>es es'.
      (\<exists>r r'. response_at (agent_pos s) (run es (begin_flow q img clk s)) = Some r \<and>
              response_at (agent_pos s) (run (es @ es') (begin_flow q img clk s)) = Some r' \<and>
              keeps r r')) \<and>
   (\<forall>r. spread r [] = r)"
  using keeps_flow_until response_run_keeps spread_empty by blast

theorem fields_never_overwritten_witness:
  "(2::nat) \<le> 5 \<and>
   (\<exists>r r'. response_at 1 (flow_until 2 (str ''Is X safe?'') null example_clock initial_state) = Some r \<and>
      response_at 1 (flow_until 5 (str ''Is X safe?'') null example_clock initial_state) = Some r' \<and>
      product_json r = Some (val demo_product) \<and>
      product_json r' = Some (val demo_product) \<and> keeps r r')"
proof -
  have p: "agent_pos initial_state = 1"
    by (simp add: agent_pos_def initial_state_def)
  have le: "(2::nat) \<le> 5" by simp
  from fields_never_overwritten [of initial_state "str ''Is X safe?''" null example_clock] le
  obtain r r' where
    r: "response_at 1 (flow_until 2 (str ''Is X safe?'') null example_clock initial_state) = Some r"
    and r': "response_at 1 (flow_until 5 (str ''Is X safe?'') null example_clock initial_state) = Some r'"
    and k: "keeps r r'"
    unfolding p by blast
  from r have 1: "product_json r = Some (val demo_product)"
    using responses_alone(3) [of initial_state "str ''Is X safe?''" null example_clock]
    by (simp add: p)
  from k 1 have 2: "product_json r' = Some (val demo_product)"
    by (auto simp: keeps_def kept_def)
  from le r r' k 1 2 show ?thesis by blast
qed

text \<open>
  C7. The \<^verbatim>\<open>isStreaming\<close> flag of a flow's agent message is true from the creation of the
  message through the first four resumptions and false from the fifth on, which is the
  piece that merges the verdict. Along any schedule of events it is true exactly as
  long as no flow with this agent message id has passed its fifth wait: no other
  handler and no earlier piece writes it.
\<close>

theorem streaming_flips_once:
  "(\<forall>n. streaming_at (agent_pos s) (flow_until n q img clk s) = Some (n < 5)) \<and>
   (\<forall>es. streaming_at (agent_pos s) (run es (begin_flow q img clk s)) =
      Some (Resume 5 (agentMsgId clk) \<notin> set es))"
  by (auto simp: flow_until_run streaming_at_run isStreaming_evolve Resume_in_own_events)

text \<open>
  C8. When a flow is started with an image payload, the response of its agent message has
  \<^verbatim>\<open>image_data\<close> equal to that payload at its creation, after each of its waits, and after
  any schedule of events of the component.
\<close>

theorem image_data_fixed:
  "(\<forall>n. \<exists>r. response_at (agent_pos s) (flow_until n q (val payload) clk s) = Some r \<and>
           image_data r = Some (val payload)) \<and>
   (\<forall>es. \<exists>r. response_at (agent_pos s) (run es (begin_flow q (val payload) clk s)) = Some r \<and>
           image_data r = Some (val payload))"
  using response_run [of s _ q "val payload" clk] by (simp add: flow_until_run) blast

text \<open>
  C9. Whatever sequence of appends, updates and finishing marks is applied to the log, the
  turns of the result are the turns of the start in their order, followed by the appended
  turns in the order of their appends; an update or a mark changes neither the number nor
  the order nor the identity of the turns. The same holds for every schedule of events
  of the component.
\<close>

theorem log_order_stable:
  "map turn_key (messages (apply_ops ops s)) =
     map turn_key (messages s) @ map turn_key (appended ops) \<and>
   (\<exists>new. map turn_key (messages (run es s)) = map turn_key (messages s) @ new)"
  using apply_ops_keys run_keys by blast

text \<open>
  C10. Any two flows, whatever their queries, images, clocks and starting states, have
  after each wait responses that differ at most in \<^verbatim>\<open>user_query\<close> and \<^verbatim>\<open>image_data\<close>, which
  echo the inputs; the final verdict is always AVOID and no user profile is recorded.
\<close>

theorem output_independent_of_input:
  "(\<forall>n. \<exists>r1 r2.
      response_at (agent_pos s1) (flow_until n q1 img1 clk1 s1) = Some r1 \<and>
      response_at (agent_pos s2) (flow_until n q2 img2 clk2 s2) = Some r2 \<and>
      without_inputs r1 = without_inputs r2 \<and>
      user_query r1 = Some q1 \<and> image_data r1 = Some img1 \<and>
      user_query r2 = Some q2 \<and> image_data r2 = Some img2) \<and>
   (\<exists>r. response_at (agent_pos s1) (simulateAgentFlow q1 img1 clk1 s1) = Some r \<and>
      final_verdict r = Some AVOID \<and> user_profile r = None)"
proof (intro conjI allI)
  fix n
  obtain r1 r2 where
    r: "response_at (agent_pos s1) (flow_until n q1 img1 clk1 s1) = Some r1"
       "response_at (agent_pos s2) (flow_until n q2 img2 clk2 s2) = Some r2"
       "without_inputs r1 = without_inputs r2"
    using without_inputs_flow by blast
  from response_run [of s1 "own_events n (agentMsgId clk1)" q1 img1 clk1] r(1)
  have 1: "user_query r1 = Some q1 \<and> image_data r1 = Some img1"
    by (auto simp: flow_until_run)
  from response_run [of s2 "own_events n (agentMsgId clk2)" q2 img2 clk2] r(2)
  have 2: "user_query r2 = Some q2 \<and> image_data r2 = Some img2"
    by (auto simp: flow_until_run)
  from r 1 2 show "\<exists>r1 r2.
      response_at (agent_pos s1) (flow_until n q1 img1 clk1 s1) = Some r1 \<and>
      response_at (agent_pos s2) (flow_until n q2 img2 clk2 s2) = Some r2 \<and>
      without_inputs r1 = without_inputs r2 \<and>
      user_query r1 = Some q1 \<and> image_data r1 = Some img1 \<and>
      user_query r2 = Some q2 \<and> image_data r2 = Some img2" by blast
next
  show "\<exists>r. response_at (agent_pos s1) (simulateAgentFlow q1 img1 clk1 s1) = Some r \<and>
      final_verdict r = Some AVOID \<and> user_profile r = None"
    by (simp add: simulateAgentFlow_flow_until responses_alone verdict_update_def initialResponse_def
        no_properties_def)
qed

end
